theory Spec2Isabelle
  imports Main "HOL-Library.Word"
begin

section \<open>Library functions the program calls\<close>

text \<open>
  Go strings are byte sequences; \<open>string\<close> (a list of 8-bit characters) is the same
  thing. The functions of this section model the parts of Go's standard library that
  \<open>spec.go\<close> calls: \<open>strings.Fields\<close>, \<open>strings.TrimSpace\<close>, \<open>strings.TrimRight\<close>,
  \<open>strings.Contains\<close>, \<open>strings.Split\<close>, \<open>strings.Join\<close>, \<open>strings.HasPrefix\<close>,
  \<open>strconv.ParseUint\<close> and \<open>bufio.Scanner\<close> with \<open>bufio.ScanLines\<close>.
\<close>

subsection \<open>White space\<close>

text \<open>
  \<open>strings.Fields\<close> and \<open>strings.TrimSpace\<close> use \<open>unicode.IsSpace\<close> on the runes of the
  UTF-8 decoding. The white space runes are U+0009 to U+000D, U+0020, U+0085, U+00A0,
  U+1680, U+2000 to U+200A, U+2028, U+2029, U+202F, U+205F and U+3000; \<open>space_runes\<close>
  lists their UTF-8 encodings. Every encoding starts with a byte that is no continuation
  byte and goes on with continuation bytes only, so a white space rune sits at a position
  of the byte string exactly when its encoding does, and bytes that start no such
  encoding can be passed over one at a time.
\<close>

definition space_runes :: "string list" where
  "space_runes =
    [[CHR 0x09], [CHR 0x0A], [CHR 0x0B], [CHR 0x0C], [CHR 0x0D], [CHR 0x20],
     [CHR 0xC2, CHR 0x85], [CHR 0xC2, CHR 0xA0],
     [CHR 0xE1, CHR 0x9A, CHR 0x80],
     [CHR 0xE2, CHR 0x80, CHR 0x80], [CHR 0xE2, CHR 0x80, CHR 0x81],
     [CHR 0xE2, CHR 0x80, CHR 0x82], [CHR 0xE2, CHR 0x80, CHR 0x83],
     [CHR 0xE2, CHR 0x80, CHR 0x84], [CHR 0xE2, CHR 0x80, CHR 0x85],
     [CHR 0xE2, CHR 0x80, CHR 0x86], [CHR 0xE2, CHR 0x80, CHR 0x87],
     [CHR 0xE2, CHR 0x80, CHR 0x88], [CHR 0xE2, CHR 0x80, CHR 0x89],
     [CHR 0xE2, CHR 0x80, CHR 0x8A],
     [CHR 0xE2, CHR 0x80, CHR 0xA8], [CHR 0xE2, CHR 0x80, CHR 0xA9],
     [CHR 0xE2, CHR 0x80, CHR 0xAF],
     [CHR 0xE2, CHR 0x81, CHR 0x9F],
     [CHR 0xE3, CHR 0x80, CHR 0x80]]"

text \<open>The number of bytes of the rune of \<open>runes\<close> that \<open>s\<close> starts with, 0 when there is none.\<close>

definition rune_width :: "string list \<Rightarrow> string \<Rightarrow> nat" where
  "rune_width runes s =
     (case find (\<lambda>p. take (length p) s = p) runes of None \<Rightarrow> 0 | Some p \<Rightarrow> length p)"

definition space_width :: "string \<Rightarrow> nat" where
  "space_width s = rune_width space_runes s"

text \<open>
  \<open>strings.Fields\<close>: the maximal runs of bytes between white space. \<open>cur\<close> holds the bytes
  of the field being read.
\<close>

function Fields_from :: "string \<Rightarrow> string \<Rightarrow> string list" where
  "Fields_from cur [] = (if cur = [] then [] else [cur])"
| "Fields_from cur (c # cs) =
     (if space_width (c # cs) = 0 then Fields_from (cur @ [c]) cs
      else (if cur = [] then [] else [cur]) @ Fields_from [] (drop (space_width (c # cs)) (c # cs)))"
  by pat_completeness auto
termination
  by (relation "measure (\<lambda>(cur, s). length s)") auto

definition Fields :: "string \<Rightarrow> string list" where
  "Fields s = Fields_from [] s"

text \<open>\<open>strings.TrimSpace\<close>: leading white space is cut rune by rune, then trailing white space.\<close>

function trim_runes :: "string list \<Rightarrow> string \<Rightarrow> string" where
  "trim_runes runes [] = []"
| "trim_runes runes (c # cs) =
     (if rune_width runes (c # cs) = 0 then c # cs
      else trim_runes runes (drop (rune_width runes (c # cs)) (c # cs)))"
  by pat_completeness auto
termination
  by (relation "measure (\<lambda>(runes, s). length s)") auto

definition TrimSpace :: "string \<Rightarrow> string" where
  "TrimSpace s = rev (trim_runes (map rev space_runes) (rev (trim_runes space_runes s)))"

subsection \<open>Other string functions\<close>

text \<open>\<open>strings.TrimRight(s, cutset)\<close> for a cutset of one byte: every trailing such byte is cut.\<close>

definition TrimRight :: "string \<Rightarrow> char \<Rightarrow> string" where
  "TrimRight s c = rev (dropWhile (\<lambda>x. x = c) (rev s))"

text \<open>\<open>strings.Contains(s, sep)\<close> for a separator of one byte.\<close>

definition Contains :: "string \<Rightarrow> char \<Rightarrow> bool" where
  "Contains s c = (c \<in> set s)"

text \<open>
  \<open>strings.Split(s, sep)\<close> for a separator of one byte: the pieces between all the
  occurrences of the separator, one more piece than there are occurrences.
\<close>

fun Split_from :: "string \<Rightarrow> string \<Rightarrow> char \<Rightarrow> string list" where
  "Split_from cur [] sep = [cur]"
| "Split_from cur (c # cs) sep =
     (if c = sep then cur # Split_from [] cs sep else Split_from (cur @ [c]) cs sep)"

definition Split :: "string \<Rightarrow> char \<Rightarrow> string list" where
  "Split s sep = Split_from [] s sep"

text \<open>\<open>strings.Join(elems, sep)\<close>.\<close>

fun Join :: "string list \<Rightarrow> string \<Rightarrow> string" where
  "Join [] sep = []"
| "Join [x] sep = x"
| "Join (x # y # ys) sep = x @ sep @ Join (y # ys) sep"

text \<open>\<open>strings.HasPrefix(s, prefix)\<close>.\<close>

definition HasPrefix :: "string \<Rightarrow> string \<Rightarrow> bool" where
  "HasPrefix s p = (take (length p) s = p)"

subsection \<open>Parsing a port number\<close>

text \<open>
  \<open>strconv.ParseUint(s, 10, 64)\<close> returns a value and an error. On a syntax error (the
  empty string, or a byte that is no decimal digit) the value is 0; on a range error it
  is the largest 64-bit value. The loop reads the bytes from the left, so the first
  failure decides.
\<close>

datatype NumError = ErrSyntax | ErrRange

fun ParseUint_loop :: "string \<Rightarrow> 64 word \<Rightarrow> 64 word \<times> NumError option" where
  "ParseUint_loop [] n = (n, None)"
| "ParseUint_loop (c # cs) n =
     (if (48::nat) \<le> of_char c \<and> (of_char c :: nat) \<le> 57 then
        (let d = (of_char c - 48 :: 64 word) in
         if n \<ge> 1844674407370955162 then (18446744073709551615, Some ErrRange)
         else
           (let n0 = n * 10; n1 = n0 + d in
            if n1 < n0 \<or> n1 > 18446744073709551615 then (18446744073709551615, Some ErrRange)
            else ParseUint_loop cs n1))
      else (0, Some ErrSyntax))"

definition ParseUint :: "string \<Rightarrow> 64 word \<times> NumError option" where
  "ParseUint s = (if s = [] then (0, Some ErrSyntax) else ParseUint_loop s 0)"

subsection \<open>Reading lines\<close>

text \<open>
  \<open>bufio.Scanner\<close> with \<open>bufio.ScanLines\<close>: the text is cut at every line feed, a last
  piece without a line feed counts when it is not empty, and one trailing carriage
  return is dropped from each piece. The scanner's buffer holds at most 65536 bytes, so
  it stops (\<open>Scan\<close> returns false) at the first piece of 65536 bytes or more; \<open>Parse\<close>
  never looks at the scanner's error.
\<close>

fun raw_lines :: "string \<Rightarrow> string \<Rightarrow> string list" where
  "raw_lines cur [] = (if cur = [] then [] else [cur])"
| "raw_lines cur (c # cs) =
     (if c = CHR 0x0A then cur # raw_lines [] cs else raw_lines (cur @ [c]) cs)"

definition dropCR :: "string \<Rightarrow> string" where
  "dropCR l = (if l \<noteq> [] \<and> last l = CHR 0x0D then butlast l else l)"

definition ScanLines :: "string \<Rightarrow> string list" where
  "ScanLines text = map dropCR (takeWhile (\<lambda>l. length l < 65536) (raw_lines [] text))"

section \<open>The statement parser\<close>

text \<open>
  \<open>isComment\<close> is the regular expression \<open>^#\<close> and \<open>isExtendedStatement\<close> is
  \<open>\\$\<close> (a backslash, byte 0x5C, at the end of the line), both matched against one
  line, which holds no line feed.
\<close>

definition isComment :: "string \<Rightarrow> bool" where
  "isComment line = (case line of [] \<Rightarrow> False | c # _ \<Rightarrow> c = CHR ''#'')"

definition isExtendedStatement :: "string \<Rightarrow> bool" where
  "isExtendedStatement line = (if line = [] then False else last line = CHR 0x5C)"

text \<open>
  One turn of the loop of \<open>Spec.Parse\<close>, on the pair of \<open>previousStatement\<close> and
  \<open>spec.Statements\<close>.
\<close>

fun Parse_line :: "string \<times> string list \<Rightarrow> string \<Rightarrow> string \<times> string list" where
  "Parse_line (previousStatement, statements) line =
     (if isComment line then (previousStatement, statements)
      else if isExtendedStatement line then
        (if previousStatement \<noteq> [] then
           (previousStatement @ '' '' @ TrimRight line (CHR 0x5C), statements)
         else (TrimRight line (CHR 0x5C), statements))
      else if TrimSpace line = [] then (previousStatement, statements)
      else
        (if previousStatement \<noteq> [] then ([], statements @ [previousStatement @ '' '' @ line])
         else (previousStatement, statements @ [line])))"

fun Parse_lines :: "string \<times> string list \<Rightarrow> string list \<Rightarrow> string \<times> string list" where
  "Parse_lines st [] = st"
| "Parse_lines st (line # rest) = Parse_lines (Parse_line st line) rest"

text \<open>
  \<open>Spec.Parse\<close>. The argument \<open>file\<close> is what opening and reading the file gives: the
  error of \<open>os.Open\<close>, or the text. The statements are appended to those the receiver
  already holds.
\<close>

datatype error =
    ErrContainerAlreadyBuilt  \<comment> \<open>Container already built. Multiple FROM declaration?\<close>
  | ErrNoContainer  \<comment> \<open>No container has been created yet. Use FROM directive\<close>
  | ErrEntrypointDefined  \<comment> \<open>Entrypoint/CMD is already defined. Probably multiple declaration\<close>
  | ErrCommandFailed string int  \<comment> \<open>Failed to execute command: '%s'. Exit code: %d\<close>
  | ErrExternal string  \<comment> \<open>an error value made outside this file\<close>

text \<open>A container handle; \<open>None\<close> is the nil pointer.\<close>

type_synonym Container = nat

text \<open>
  Modelled from the spec: the struct \<open>Manifest\<close> is declared in a file of the package
  that is not at hand. Its fields here are those \<open>spec.go\<close> reads and writes, with the
  types its uses fix (\<open>Labels\<close> is made as a \<open>map[string]string\<close>, \<open>ExposedPorts\<close>
  as a \<open>[]uint64\<close>); the data model of the spec lists the same seven. The map is kept
  as an association list with unique keys.
\<close>

record Manifest =
  Labels :: "(string \<times> string) list"
  ExposedPorts :: "64 word list"
  Env :: "string list"
  WorkDir :: string
  Maintainers :: "string list"
  User :: string
  EntryPoint :: "string list"

record BuilderState =
  Container :: "Container option"
  Env :: "string list"
  Cwd :: string
  Manifest :: Manifest

record Spec =
  ID :: string
  Statements :: "string list"
  State :: BuilderState

definition empty_Manifest :: Manifest where
  "empty_Manifest =
     \<lparr>Labels = [], ExposedPorts = [], Manifest.Env = [], WorkDir = [], Maintainers = [],
      User = [], EntryPoint = []\<rparr>"

definition zero_State :: BuilderState where
  "zero_State = \<lparr>Container = None, BuilderState.Env = [], Cwd = [], Manifest = empty_Manifest\<rparr>"

definition New :: "string \<Rightarrow> Spec" where
  "New ident = \<lparr>ID = ident, Statements = [], State = zero_State\<rparr>"

definition Parse :: "Spec \<Rightarrow> error + string \<Rightarrow> error option \<times> Spec" where
  "Parse spec file =
     (case file of
        Inl err \<Rightarrow> (Some err, spec)
      | Inr text \<Rightarrow>
          (None, spec\<lparr>Statements := snd (Parse_lines ([], Statements spec) (ScanLines text))\<rparr>))"

section \<open>The container runtime and the host\<close>

text \<open>
  Everything \<open>Build\<close> does outside its own memory goes through the functions below. They
  are parameters of the model: \<open>'w\<close> is the state of the world (containers, files,
  processes), which each effectful call may read and change.

  \<^item> \<open>ParentName\<close>, \<open>CloneAndStartContainer\<close>, \<open>Load\<close> (the method \<open>Manifest.Load\<close>) and
    \<open>MinimalEnv\<close> are declared in files of the package that are not at hand.
  \<^item> \<open>ConfigItem\<close> and \<open>RunCommandStatus\<close> are methods of \<open>lxc.Container\<close>. A method
    call on the nil container dereferences nil and panics.
  \<^item> \<open>WriteFile\<close> is \<open>ioutil.WriteFile\<close>; \<open>exec_Run\<close> runs a host process
    (\<open>exec.Command(...).Run()\<close> or \<open>.CombinedOutput()\<close>) and gives its error;
    \<open>filepath_Abs\<close>, \<open>filepath_Base\<close> and \<open>filepath_Join\<close> are the functions of
    \<open>path/filepath\<close>; \<open>Marshal\<close> is \<open>yaml.Marshal\<close>.
  \<^item> \<open>range_Labels\<close> is the order in which a \<open>range\<close> over the label map visits its
    entries, which Go leaves open.
\<close>

record AttachOptions =
  options_Cwd :: string
  options_Env :: "string list"
  options_ClearEnv :: bool

record 'w Runtime =
  ParentName :: "string \<Rightarrow> string"
  CloneAndStartContainer ::
    "string \<Rightarrow> string \<Rightarrow> string \<Rightarrow> 'w \<Rightarrow> (Container option \<times> error option) \<times> 'w"
  Load :: "string \<Rightarrow> Manifest \<Rightarrow> 'w \<Rightarrow> (Manifest \<times> error option) \<times> 'w"
  MinimalEnv :: "string list"
  ConfigItem :: "Container \<Rightarrow> string \<Rightarrow> 'w \<Rightarrow> string list"
  RunCommandStatus ::
    "Container \<Rightarrow> string list \<Rightarrow> AttachOptions \<Rightarrow> 'w \<Rightarrow> (int \<times> error option) \<times> 'w"
  WriteFile :: "string \<Rightarrow> string \<Rightarrow> nat \<Rightarrow> 'w \<Rightarrow> error option \<times> 'w"
  exec_Run :: "string list \<Rightarrow> 'w \<Rightarrow> error option \<times> 'w"
  filepath_Abs :: "string \<Rightarrow> 'w \<Rightarrow> string \<times> error option"
  filepath_Base :: "string \<Rightarrow> string"
  filepath_Join :: "string list \<Rightarrow> string"
  Marshal :: "Manifest \<Rightarrow> string \<times> error option"
  range_Labels :: "(string \<times> string) list \<Rightarrow> (string \<times> string) list"

text \<open>
  How a call ends: it returns (nil or an error), it panics (an index out of range, a nil
  dereference), or the process exits (\<open>log.Fatalf\<close> logs and calls \<open>os.Exit(1)\<close>).
\<close>

datatype outcome = Returned "error option" | Panicked | Exited

section \<open>The command execution harness\<close>

text \<open>The bytes \<open>Spec.RunCommand\<close> writes into its buffer, write by write.\<close>

definition script :: "BuilderState \<Rightarrow> string list \<Rightarrow> string" where
  "script st command =
     (let buffer = ''#!/bin/bash\<newline>'';
          buffer = foldl (\<lambda>b v. b @ ''export '' @ v @ ''\<newline>'') buffer (BuilderState.Env st);
          buffer = (if Cwd st \<noteq> [] then buffer @ ''cd '' @ Cwd st @ ''\<newline>'' else buffer);
          buffer = (if User (Manifest st) \<noteq> [] then buffer @ ''su - '' @ User (Manifest st) @ ''\<newline>''
                    else buffer)
      in buffer @ Join command '' '')"

text \<open>
  \<open>Spec.RunCommand\<close>. \<open>bytes.Buffer.WriteString\<close> never returns an error, so the
  return inside the loop over the environment is dead. The file mode 0755 is 493.
\<close>

definition RunCommand :: "'w Runtime \<Rightarrow> BuilderState \<Rightarrow> string list \<Rightarrow> 'w \<Rightarrow> outcome \<times> 'w" where
  "RunCommand rt st command w =
     (let options = \<lparr>options_Cwd = ''/root'', options_Env = MinimalEnv rt, options_ClearEnv = True\<rparr> in
      case Container st of
        None \<Rightarrow> (Panicked, w)
      | Some c \<Rightarrow>
          (case ConfigItem rt c ''lxc.rootfs'' w of
             [] \<Rightarrow> (Panicked, w)
           | rootfs # _ \<Rightarrow>
               (case WriteFile rt (filepath_Join rt [rootfs, ''/tmp/dockerfile.sh''])
                       (script st command) 493 w of
                  (Some err, w1) \<Rightarrow> (Returned (Some err), w1)
                | (None, w1) \<Rightarrow>
                    (case RunCommandStatus rt c [''/bin/bash'', ''/tmp/dockerfile.sh''] options w1 of
                       ((exitCode, Some err), w2) \<Rightarrow> (Returned (Some err), w2)
                     | ((exitCode, None), w2) \<Rightarrow>
                         (if exitCode \<noteq> 0 then
                            (Returned (Some (ErrCommandFailed (Join command '' '') exitCode)), w2)
                          else (Returned None, w2))))))"

section \<open>File staging, artifacts, the manifest file\<close>

text \<open>\<open>Spec.addFiles\<close>.\<close>

definition addFiles :: "'w Runtime \<Rightarrow> BuilderState \<Rightarrow> string \<Rightarrow> string \<Rightarrow> 'w \<Rightarrow> outcome \<times> 'w" where
  "addFiles rt st src dest w =
     (case Container st of
        None \<Rightarrow> (Panicked, w)
      | Some c \<Rightarrow>
          (case ConfigItem rt c ''lxc.rootfs'' w of
             [] \<Rightarrow> (Panicked, w)
           | rootfs # _ \<Rightarrow>
               (case filepath_Abs rt src w of
                  (absPath, Some err) \<Rightarrow> (Returned (Some err), w)
                | (absPath, None) \<Rightarrow>
                    (let base = filepath_Base rt absPath;
                         tmpContainer = filepath_Join rt [rootfs, ''tmp'', base] in
                     case exec_Run rt [''/bin/cp'', ''-ar'', absPath, tmpContainer] w of
                       (Some err, w1) \<Rightarrow> (Returned (Some err), w1)
                     | (None, w1) \<Rightarrow>
                         (case RunCommand rt st
                                 [''cp'', ''-r'', filepath_Join rt [''/tmp'', base], dest] w1 of
                            (Returned None, w2) \<Rightarrow>
                              (case exec_Run rt [''/bin/rm'', ''-rf'', tmpContainer] w2 of
                                 (Some err, w3) \<Rightarrow> (Returned (Some err), w3)
                               | (None, w3) \<Rightarrow> (Returned None, w3))
                          | (out, w2) \<Rightarrow> (out, w2))))))"

text \<open>The loop of \<open>Spec.fetchArtifact\<close> over the labels, in the order \<open>range\<close> visits them.\<close>

fun fetch_labels ::
  "'w Runtime \<Rightarrow> BuilderState \<Rightarrow> string \<Rightarrow> (string \<times> string) list \<Rightarrow> 'w \<Rightarrow> outcome \<times> 'w" where
  "fetch_labels rt st rootfs [] w = (Returned None, w)"
| "fetch_labels rt st rootfs ((k, v) # rest) w =
     (if HasPrefix k ''nut_artifact_'' then
        (let artifact = filepath_Base rt v in
         case RunCommand rt st [''cp'', ''-r'', v, filepath_Join rt [''/tmp'', artifact]] w of
           (Returned None, w1) \<Rightarrow>
             (let pathInContainer = filepath_Join rt [rootfs, ''tmp'', artifact];
                  (err, w2) = exec_Run rt [''/bin/cp'', ''-ar'', pathInContainer, artifact] w1
              in fetch_labels rt st rootfs rest w2)
         | (out, w1) \<Rightarrow> (out, w1))
      else fetch_labels rt st rootfs rest w)"

definition fetchArtifact :: "'w Runtime \<Rightarrow> BuilderState \<Rightarrow> 'w \<Rightarrow> outcome \<times> 'w" where
  "fetchArtifact rt st w =
     (case Container st of
        None \<Rightarrow> (Panicked, w)
      | Some c \<Rightarrow>
          (case ConfigItem rt c ''lxc.rootfs'' w of
             [] \<Rightarrow> (Panicked, w)
           | rootfs # _ \<Rightarrow> fetch_labels rt st rootfs (range_Labels rt (Labels (Manifest st))) w))"

text \<open>\<open>Spec.writeManifest\<close>. The file mode 0644 is 420.\<close>

definition writeManifest :: "'w Runtime \<Rightarrow> BuilderState \<Rightarrow> 'w \<Rightarrow> outcome \<times> 'w" where
  "writeManifest rt st w =
     (case Container st of
        None \<Rightarrow> (Panicked, w)
      | Some c \<Rightarrow>
          (case ConfigItem rt c ''lxc.rootfs'' w of
             [] \<Rightarrow> (Panicked, w)
           | rootfs # _ \<Rightarrow>
               (let manifestPath = filepath_Join rt [rootfs, ''../manifest.yml''] in
                case Marshal rt (Manifest st) of
                  (d, Some err) \<Rightarrow> (Returned (Some err), w)
                | (d, None) \<Rightarrow>
                    (case WriteFile rt manifestPath d 420 w of
                       (err, w1) \<Rightarrow> (Returned err, w1)))))"

section \<open>The directive interpreter\<close>

text \<open>
  A statement either lets the loop of \<open>Spec.Build\<close> go on to the next one (\<open>None\<close>) or
  ends \<open>Build\<close> with an outcome. \<open>Build\<close> changes \<open>spec.State\<close> in place, so the state
  reached is there to see however \<open>Build\<close> ends.
\<close>

text \<open>Assignment \<open>m[k] = v\<close> to a Go map, kept as an association list with unique keys.\<close>

fun map_assign :: "('k \<times> 'v) list \<Rightarrow> 'k \<Rightarrow> 'v \<Rightarrow> ('k \<times> 'v) list" where
  "map_assign [] k v = [(k, v)]"
| "map_assign ((k', v') # m) k v =
     (if k' = k then (k, v) # m else (k', v') # map_assign m k v)"

text \<open>FROM: one clone per volume, each overwriting the container handle.\<close>

fun clone_volumes ::
  "'w Runtime \<Rightarrow> string \<Rightarrow> string \<Rightarrow> string list \<Rightarrow> BuilderState \<Rightarrow> 'w
     \<Rightarrow> outcome option \<times> BuilderState \<times> 'w" where
  "clone_volumes rt name ident [] st w = (None, st, w)"
| "clone_volumes rt name ident (volume # rest) st w =
     (case CloneAndStartContainer rt name ident volume w of
        ((c, Some err), w1) \<Rightarrow> (Some (Returned (Some err)), st\<lparr>Container := c\<rparr>, w1)
      | ((c, None), w1) \<Rightarrow> clone_volumes rt name ident rest (st\<lparr>Container := c\<rparr>) w1)"

text \<open>
  ENV: the loop over \<open>words[1:]\<close>. A word with \<open>=\<close> is one entry; another word is a key
  and takes the next word as its value (\<open>i++\<close>), and \<open>words[i+1]\<close> panics when there is
  none.
\<close>

fun env_loop :: "string list \<Rightarrow> BuilderState \<Rightarrow> outcome option \<times> BuilderState" where
  "env_loop [] st = (None, st)"
| "env_loop (word # rest) st =
     (if Contains word (CHR ''='') then
        env_loop rest
          (st\<lparr>BuilderState.Env := BuilderState.Env st @ [word],
              Manifest := (Manifest st)\<lparr>Manifest.Env := Manifest.Env (Manifest st) @ [word]\<rparr>\<rparr>)
      else
        (case rest of
           [] \<Rightarrow> (Some Panicked, st)
         | val # rest' \<Rightarrow>
             env_loop rest'
               (st\<lparr>BuilderState.Env := BuilderState.Env st @ [word @ ''='' @ val],
                   Manifest := (Manifest st)\<lparr>Manifest.Env :=
                     Manifest.Env (Manifest st) @ [word @ ''='' @ val]\<rparr>\<rparr>)))"

text \<open>
  LABEL: \<open>pair[0]\<close> and \<open>pair[1]\<close> of \<open>strings.Split(words[i], "=")\<close>; a word without \<open>=\<close>
  reaches \<open>log.Fatalf\<close>.
\<close>

fun label_loop :: "string list \<Rightarrow> BuilderState \<Rightarrow> outcome option \<times> BuilderState" where
  "label_loop [] st = (None, st)"
| "label_loop (word # rest) st =
     (if Contains word (CHR ''='') then
        (case Split word (CHR ''='') of
           p0 # p1 # _ \<Rightarrow>
             label_loop rest
               (st\<lparr>Manifest := (Manifest st)\<lparr>Labels := map_assign (Labels (Manifest st)) p0 p1\<rparr>\<rparr>)
         | _ \<Rightarrow> (Some Panicked, st))
      else (Some Exited, st))"

text \<open>EXPOSE: the error of \<open>ParseUint\<close> is logged, and \<open>port\<close> is appended in either case.\<close>

fun expose_loop :: "string list \<Rightarrow> BuilderState \<Rightarrow> BuilderState" where
  "expose_loop [] st = st"
| "expose_loop (p # rest) st =
     (case ParseUint p of
        (port, err) \<Rightarrow>
          expose_loop rest
            (st\<lparr>Manifest := (Manifest st)\<lparr>ExposedPorts := ExposedPorts (Manifest st) @ [port]\<rparr>\<rparr>))"

text \<open>
  The body of the loop of \<open>Spec.Build\<close>: \<open>strings.Fields\<close>, then the switch on \<open>words[0]\<close>,
  its cases in the order of the source. An index beyond the words panics. The cases ADD
  and COPY have the same body in the source, and so have CMD and ENTRYPOINT; VOLUME and
  STOPSIGNAL are empty, and the default case makes an error value and drops it.
\<close>

definition Build_statement ::
  "'w Runtime \<Rightarrow> string \<Rightarrow> string list \<Rightarrow> string \<Rightarrow> BuilderState \<Rightarrow> 'w
     \<Rightarrow> outcome option \<times> BuilderState \<times> 'w" where
  "Build_statement rt ident volumes statement st w =
     (case Fields statement of
        [] \<Rightarrow> (Some Panicked, st, w)
      | keyword # args \<Rightarrow>
          if keyword = ''FROM'' then
            (if Container st \<noteq> None then (Some (Returned (Some ErrContainerAlreadyBuilt)), st, w)
             else
               (case args of
                  [] \<Rightarrow> (Some Panicked, st, w)
                | a1 # _ \<Rightarrow>
                    (let name = ParentName rt a1 in
                     case clone_volumes rt name ident volumes st w of
                       (Some out, st1, w1) \<Rightarrow> (Some out, st1, w1)
                     | (None, st1, w1) \<Rightarrow>
                         (case Load rt name (Manifest st1) w1 of
                            ((m, manifestErr), w2) \<Rightarrow> (None, st1\<lparr>Manifest := m\<rparr>, w2)))))
          else if keyword = ''RUN'' then
            (if Container st = None then (Some (Returned (Some ErrNoContainer)), st, w)
             else
               (case RunCommand rt st args w of
                  (Returned None, w1) \<Rightarrow> (None, st, w1)
                | (out, w1) \<Rightarrow> (Some out, st, w1)))
          else if keyword = ''ENV'' then
            (case env_loop args st of (out, st1) \<Rightarrow> (out, st1, w))
          else if keyword = ''WORKDIR'' then
            (case args of
               [] \<Rightarrow> (Some Panicked, st, w)
             | a1 # _ \<Rightarrow> (None, st\<lparr>Cwd := a1, Manifest := (Manifest st)\<lparr>WorkDir := a1\<rparr>\<rparr>, w))
          else if keyword = ''ADD'' \<or> keyword = ''COPY'' then
            (case args of
               a1 # a2 # _ \<Rightarrow>
                 (case addFiles rt st a1 a2 w of
                    (Returned None, w1) \<Rightarrow> (None, st, w1)
                  | (out, w1) \<Rightarrow> (Some out, st, w1))
             | _ \<Rightarrow> (Some Panicked, st, w))
          else if keyword = ''LABEL'' then
            (case label_loop args st of (out, st1) \<Rightarrow> (out, st1, w))
          else if keyword = ''EXPOSE'' then (None, expose_loop args st, w)
          else if keyword = ''MAINTAINER'' then
            (None,
             st\<lparr>Manifest := (Manifest st)\<lparr>Maintainers :=
               Maintainers (Manifest st) @ [Join args '' '']\<rparr>\<rparr>, w)
          else if keyword = ''USER'' then
            (case args of
               [] \<Rightarrow> (Some Panicked, st, w)
             | a1 # _ \<Rightarrow> (None, st\<lparr>Manifest := (Manifest st)\<lparr>User := a1\<rparr>\<rparr>, w))
          else if keyword = ''VOLUME'' \<or> keyword = ''STOPSIGNAL'' then (None, st, w)
          else if keyword = ''CMD'' \<or> keyword = ''ENTRYPOINT'' then
            (if length (EntryPoint (Manifest st)) = 0 then
               (None, st\<lparr>Manifest := (Manifest st)\<lparr>EntryPoint := args\<rparr>\<rparr>, w)
             else (Some (Returned (Some ErrEntrypointDefined)), st, w))
          else (None, st, w))"

fun Build_statements ::
  "'w Runtime \<Rightarrow> string \<Rightarrow> string list \<Rightarrow> string list \<Rightarrow> BuilderState \<Rightarrow> 'w
     \<Rightarrow> outcome option \<times> BuilderState \<times> 'w" where
  "Build_statements rt ident volumes [] st w = (None, st, w)"
| "Build_statements rt ident volumes (statement # rest) st w =
     (case Build_statement rt ident volumes statement st w of
        (Some out, st1, w1) \<Rightarrow> (Some out, st1, w1)
      | (None, st1, w1) \<Rightarrow> Build_statements rt ident volumes rest st1 w1)"

text \<open>
  \<open>Spec.Build\<close>: the state starts empty, the statements run in order, then the artifacts
  are fetched and the manifest is written.
\<close>

definition Build :: "'w Runtime \<Rightarrow> Spec \<Rightarrow> string list \<Rightarrow> 'w \<Rightarrow> outcome \<times> Spec \<times> 'w" where
  "Build rt spec volumes w =
     (case Build_statements rt (ID spec) volumes (Statements spec) zero_State w of
        (Some out, st, w1) \<Rightarrow> (out, spec\<lparr>State := st\<rparr>, w1)
      | (None, st, w1) \<Rightarrow>
          (case fetchArtifact rt st w1 of
             (Returned None, w2) \<Rightarrow>
               (case writeManifest rt st w2 of (out, w3) \<Rightarrow> (out, spec\<lparr>State := st\<rparr>, w3))
           | (out, w2) \<Rightarrow> (out, spec\<lparr>State := st\<rparr>, w2)))"

section \<open>Auxiliary definitions for stating the properties\<close>

text \<open>
  The entries an ENV statement stands for, read off its arguments: a word with \<open>=\<close> is
  an entry, another word is a key and forms an entry with the word after it.
\<close>

fun env_entries :: "string list \<Rightarrow> string list" where
  "env_entries [] = []"
| "env_entries (word # rest) =
     (if Contains word (CHR ''='') then word # env_entries rest
      else (case rest of [] \<Rightarrow> [] | val # rest' \<Rightarrow> (word @ ''='' @ val) # env_entries rest'))"

text \<open>
  A runtime for the examples. The world is the list of the calls made so far; every call
  succeeds, except that the base image has no manifest to load. \<open>filepath_Base\<close> and
  \<open>filepath_Join\<close> are simple stand-ins (no cleaning of the path).
\<close>

datatype event =
    Cloned string string string
  | Wrote string string
  | Ran "string list"
  | Executed "string list"

definition recording_runtime :: "event list Runtime" where
  "recording_runtime =
     \<lparr>ParentName = (\<lambda>name. name),
      CloneAndStartContainer =
        (\<lambda>name ident volume w. ((Some 1, None), w @ [Cloned name ident volume])),
      Load = (\<lambda>name m w. ((m, Some (ErrExternal ''no manifest'')), w)),
      MinimalEnv = [],
      ConfigItem = (\<lambda>c key w. [''/rootfs'']),
      RunCommandStatus = (\<lambda>c argv options w. ((0, None), w @ [Ran argv])),
      WriteFile = (\<lambda>path bytes mode w. (None, w @ [Wrote path bytes])),
      exec_Run = (\<lambda>argv w. (None, w @ [Executed argv])),
      filepath_Abs = (\<lambda>path w. (path, None)),
      filepath_Base = (\<lambda>path. rev (takeWhile (\<lambda>c. c \<noteq> CHR ''/'') (rev path))),
      filepath_Join = (\<lambda>elems. Join elems ''/''),
      Marshal = (\<lambda>m. (''manifest'', None)),
      range_Labels = (\<lambda>labels. labels)\<rparr>"

text \<open>The same runtime on a container whose file system cannot be written.\<close>

definition failing_write_runtime :: "event list Runtime" where
  "failing_write_runtime =
     recording_runtime\<lparr>WriteFile :=
       (\<lambda>path bytes mode w. (Some (ErrExternal ''read-only file system''), w))\<rparr>"

definition example_spec :: "string list \<Rightarrow> Spec" where
  "example_spec statements = (New ''nut'')\<lparr>Statements := statements\<rparr>"

text \<open>
  A script of five lines: a continued line, a comment, an empty line, the line that
  completes the statement, and a second statement without a final line feed.
\<close>

definition example_script :: string where
  "example_script = ''RUN a '' @ [CHR 0x5C, CHR 0x0A] @ ''# note\<newline>\<newline>  b\<newline>FROM x''"

section \<open>Properties of the parser\<close>

lemmas string_defs = Fields_def space_width_def rune_width_def space_runes_def TrimSpace_def
  TrimRight_def Contains_def Split_def HasPrefix_def ParseUint_def ScanLines_def dropCR_def
  isComment_def isExtendedStatement_def

lemma Parse_line_comment: "isComment c \<Longrightarrow> Parse_line st c = st"
  by (cases st) simp

lemma Parse_lines_append: "Parse_lines st (xs @ ys) = Parse_lines (Parse_lines st xs) ys"
  by (induction xs arbitrary: st) simp_all

lemma Parse_line_emits:
  "snd (Parse_line (prev, stmts) line) \<noteq> stmts \<Longrightarrow>
     \<not> isComment line \<and> \<not> isExtendedStatement line \<and> TrimSpace line \<noteq> [] \<and>
     Parse_line (prev, stmts) line =
       ([], stmts @ [if prev = [] then line else prev @ '' '' @ line])"
  by (simp split: if_splits)

text \<open>
  Claim C7. A line that starts with \<open>#\<close> leaves both the pending accumulator and the
  statements as they are, wherever it stands among the lines, so a script with the
  comment line gives what the script without it gives. The statements grow only on a
  line that is no comment, does not end in a backslash and is not blank; that line
  resets the accumulator and appends one statement, the accumulator joined to the line
  by a space when there is one.
\<close>

theorem comment_inside_continuation:
  assumes "isComment c"
  shows "Parse_line (prev, stmts) c = (prev, stmts) \<and>
         Parse_lines st (before @ c # after) = Parse_lines st (before @ after) \<and>
         (snd (Parse_line (prev, stmts) line) \<noteq> stmts \<longrightarrow>
            \<not> isComment line \<and> \<not> isExtendedStatement line \<and> TrimSpace line \<noteq> [] \<and>
            Parse_line (prev, stmts) line =
              ([], stmts @ [if prev = [] then line else prev @ '' '' @ line]))"
proof -
  have one: "Parse_line (prev, stmts) c = (prev, stmts)"
    using assms by (rule Parse_line_comment)
  have "Parse_line (Parse_lines st before) c = Parse_lines st before"
    using assms by (rule Parse_line_comment)
  then have many: "Parse_lines st (before @ c # after) = Parse_lines st (before @ after)"
    by (simp add: Parse_lines_append)
  show ?thesis using one many Parse_line_emits [of prev stmts line] by blast
qed

theorem comment_inside_continuation_witness:
  "isComment ''# note'' \<and>
   Parse_line (''RUN a'', [''FROM x'']) ''# note'' = (''RUN a'', [''FROM x'']) \<and>
   Parse_lines ([], []) ([''RUN a '' @ [CHR 0x5C]] @ ''# note'' # [''b'']) =
     Parse_lines ([], []) ([''RUN a '' @ [CHR 0x5C]] @ [''b'']) \<and>
   snd (Parse_line (''RUN a'', [''FROM x'']) ''b'') \<noteq> [''FROM x''] \<and>
   Parse_line (''RUN a'', [''FROM x'']) ''b'' =
     ([], [''FROM x''] @ [if ''RUN a'' = [] then ''b'' else ''RUN a'' @ '' '' @ ''b''])"
proof -
  have h: "isComment ''# note''" by (simp add: isComment_def)
  have e: "snd (Parse_line (''RUN a'', [''FROM x'']) ''b'') \<noteq> [''FROM x'']"
    by (simp add: string_defs)
  show ?thesis
    using h e comment_inside_continuation [OF h, of "''RUN a''" "[''FROM x'']" "([], [])"
        "[''RUN a '' @ [CHR 0x5C]]" "[''b'']" "''b''"]
    by blast
qed

lemma Parse_line_shift:
  "Parse_line (prev, stmts) line =
     (fst (Parse_line (prev, []) line), stmts @ snd (Parse_line (prev, []) line))"
  by simp

lemma Parse_lines_shift:
  "Parse_lines (prev, stmts) ls =
     (fst (Parse_lines (prev, []) ls), stmts @ snd (Parse_lines (prev, []) ls))"
proof (induction ls arbitrary: prev stmts)
  case Nil
  show ?case by simp
next
  case (Cons l ls)
  obtain p e where pe: "Parse_line (prev, []) l = (p, e)"
    by (cases "Parse_line (prev, []) l")
  have step: "Parse_line (prev, stmts) l = (p, stmts @ e)"
    using Parse_line_shift [of prev stmts l] pe by simp
  have a: "Parse_lines (p, stmts @ e) ls =
      (fst (Parse_lines (p, []) ls), (stmts @ e) @ snd (Parse_lines (p, []) ls))"
    by (rule Cons.IH)
  have b: "Parse_lines (p, e) ls = (fst (Parse_lines (p, []) ls), e @ snd (Parse_lines (p, []) ls))"
    by (rule Cons.IH)
  show ?case
    by (simp only: Parse_lines.simps step pe a b fst_conv snd_conv append_assoc)
qed

lemma Parse_Statements:
  "Statements (snd (Parse spec (Inr text))) =
     Statements spec @ snd (Parse_lines ([], []) (ScanLines text))"
  using Parse_lines_shift [of "[]" "Statements spec" "ScanLines text"]
  by (simp add: Parse_def)

lemma example_script_statements:
  "snd (Parse_lines ([], []) (ScanLines example_script)) = [''RUN a    b'', ''FROM x'']"
  by (simp add: example_script_def string_defs)

text \<open>
  Claim C9 as stated fails: \<open>Parse\<close> appends to \<open>spec.Statements\<close> and never empties
  it, so parsing the same text a second time on the same \<open>Spec\<close> does not give the
  statements of the first time again, but those statements twice.
\<close>

theorem reparse_doubles_statements:
  "Statements (snd (Parse (New ''nut'') (Inr example_script))) = [''RUN a    b'', ''FROM x''] \<and>
   Statements (snd (Parse (snd (Parse (New ''nut'') (Inr example_script))) (Inr example_script))) =
     [''RUN a    b'', ''FROM x'', ''RUN a    b'', ''FROM x''] \<and>
   Statements (snd (Parse (snd (Parse (New ''nut'') (Inr example_script))) (Inr example_script))) \<noteq>
     Statements (snd (Parse (New ''nut'') (Inr example_script)))"
  by (simp add: Parse_Statements example_script_statements New_def)

text \<open>
  Claim C9, amended. Parsing a text never fails once the file is open, and the
  statements it gives are a function of the text alone: two fresh \<open>Spec\<close> values,
  whatever their identifiers, receive the same sequence. \<open>Parse\<close> appends that sequence
  to the statements its receiver holds, so parsing the text a second time on the same
  \<open>Spec\<close> leaves the sequence twice in a row.
\<close>

theorem Parse_appends_statements_of_text:
  "fst (Parse spec (Inr text)) = None \<and>
   Statements (snd (Parse (New i) (Inr text))) = Statements (snd (Parse (New j) (Inr text))) \<and>
   Statements (snd (Parse spec (Inr text))) =
     Statements spec @ Statements (snd (Parse (New i) (Inr text))) \<and>
   Statements (snd (Parse (snd (Parse (New i) (Inr text))) (Inr text))) =
     Statements (snd (Parse (New i) (Inr text))) @ Statements (snd (Parse (New i) (Inr text)))"
proof -
  let ?S = "snd (Parse_lines ([], []) (ScanLines text))"
  have ok: "fst (Parse spec (Inr text)) = None"
    by (simp add: Parse_def)
  have fresh: "Statements (snd (Parse (New k) (Inr text))) = ?S" for k
    by (simp add: Parse_Statements New_def)
  have any: "Statements (snd (Parse spec (Inr text))) = Statements spec @ ?S"
    by (rule Parse_Statements)
  have again: "Statements (snd (Parse (snd (Parse (New i) (Inr text))) (Inr text))) = ?S @ ?S"
    by (simp add: Parse_Statements New_def)
  show ?thesis
    by (simp only: ok fresh any again simp_thms)
qed

theorem Parse_appends_statements_of_text_witness:
  "Statements (snd (Parse (New ''one'') (Inr example_script))) = [''RUN a    b'', ''FROM x''] \<and>
   Statements (snd (Parse (New ''one'') (Inr example_script))) =
     Statements (snd (Parse (New ''two'') (Inr example_script))) \<and>
   Statements (snd (Parse (snd (Parse (New ''one'') (Inr example_script))) (Inr example_script))) =
     [''RUN a    b'', ''FROM x''] @ [''RUN a    b'', ''FROM x'']"
proof -
  have "Statements (snd (Parse (New ''one'') (Inr example_script))) = [''RUN a    b'', ''FROM x'']"
    by (simp add: Parse_Statements example_script_statements New_def)
  then show ?thesis
    using Parse_appends_statements_of_text [of "New ''one''" example_script "''one''" "''two''"]
    by simp
qed

subsection \<open>Every parsed statement has a keyword\<close>

lemma Fields_from_cur: "cur \<noteq> [] \<Longrightarrow> Fields_from cur s \<noteq> []"
  by (induction cur s rule: Fields_from.induct) auto

lemma Fields_from_tokens: "f \<in> set (Fields_from cur s) \<Longrightarrow> f \<noteq> []"
  by (induction cur s rule: Fields_from.induct) (auto split: if_splits)

lemma trim_Fields: "trim_runes space_runes s \<noteq> [] \<Longrightarrow> Fields_from [] s \<noteq> []"
proof (induction "space_runes" s rule: trim_runes.induct)
  case 1
  then show ?case by simp
next
  case (2 c cs)
  show ?case
  proof (cases "space_width (c # cs) = 0")
    case True
    then show ?thesis by (simp add: Fields_from_cur)
  next
    case False
    then show ?thesis using 2 by (simp add: space_width_def)
  qed
qed

lemma TrimSpace_Fields:
  assumes "TrimSpace s \<noteq> []"
  shows "Fields s \<noteq> []"
proof -
  have "trim_runes space_runes s \<noteq> []"
  proof
    assume "trim_runes space_runes s = []"
    then have "TrimSpace s = []" by (simp add: TrimSpace_def)
    with assms show False by simp
  qed
  then show ?thesis by (simp add: Fields_def trim_Fields)
qed

text \<open>No encoding of a white space rune holds the byte 0x20 after its first byte.\<close>

lemma space_runes_tl: "p \<in> set space_runes \<Longrightarrow> CHR 0x20 \<notin> set (tl p)"
  by (auto simp: space_runes_def)

lemma space_width_space: "space_width (CHR 0x20 # s) = 1"
  by (simp add: space_width_def rune_width_def space_runes_def)

lemma rune_width_cases:
  "rune_width runes s = 0 \<or>
   (\<exists>p \<in> set runes. take (length p) s = p \<and> rune_width runes s = length p)"
  by (auto simp: rune_width_def find_Some_iff split: option.splits)

text \<open>A white space rune that starts before a space ends before it.\<close>

lemma space_width_before_space:
  assumes "pre \<noteq> []"
  shows "space_width (pre @ CHR 0x20 # s) \<le> length pre"
proof (rule ccontr)
  assume n: "\<not> space_width (pre @ CHR 0x20 # s) \<le> length pre"
  then have "space_width (pre @ CHR 0x20 # s) \<noteq> 0" by simp
  then obtain p where p: "p \<in> set space_runes" "take (length p) (pre @ CHR 0x20 # s) = p"
      "space_width (pre @ CHR 0x20 # s) = length p"
    using rune_width_cases [of space_runes "pre @ CHR 0x20 # s"] by (auto simp: space_width_def)
  from n p(3) have len: "length pre < length p" by simp
  from p(2) len have eq: "p = pre @ CHR 0x20 # take (length p - Suc (length pre)) s"
    by (simp add: take_Cons')
  obtain a pre' where pre: "pre = a # pre'" using assms by (cases pre) auto
  have "tl p = pre' @ CHR 0x20 # take (length p - Suc (length pre)) s"
    by (subst eq) (simp add: pre)
  then have "CHR 0x20 \<in> set (tl p)" by simp
  with space_runes_tl [OF p(1)] show False by simp
qed

lemma Fields_from_after_space:
  "Fields_from [] line \<noteq> [] \<Longrightarrow> Fields_from cur (pre @ CHR 0x20 # line) \<noteq> []"
proof (induction "length pre" arbitrary: pre cur rule: less_induct)
  case less
  show ?case
  proof (cases pre)
    case Nil
    then show ?thesis using less.prems by (simp add: space_width_space)
  next
    case (Cons c cs)
    show ?thesis
    proof (cases "space_width (pre @ CHR 0x20 # line) = 0")
      case True
      have "Fields_from (cur @ [c]) (cs @ CHR 0x20 # line) \<noteq> []"
        by (rule less.hyps) (simp_all add: Cons less.prems)
      then show ?thesis using True by (simp add: Cons)
    next
      case False
      define n where "n = space_width (pre @ CHR 0x20 # line)"
      have n: "0 < n" "n \<le> length pre"
        using False space_width_before_space [of pre line] by (simp_all add: n_def Cons)
      have "Fields_from [] (drop n pre @ CHR 0x20 # line) \<noteq> []"
        by (rule less.hyps) (use n in \<open>simp_all add: Cons less.prems\<close>)
      moreover have "drop n (pre @ CHR 0x20 # line) = drop n pre @ CHR 0x20 # line"
        using n by simp
      moreover have "Fields_from cur (pre @ CHR 0x20 # line) =
          (if cur = [] then [] else [cur]) @ Fields_from [] (drop n (pre @ CHR 0x20 # line))"
        using False unfolding n_def Cons append_Cons by (subst Fields_from.simps) simp
      ultimately show ?thesis by simp
    qed
  qed
qed

lemma Parse_line_emitted:
  assumes "s \<in> set (snd (Parse_line (prev, stmts) line))"
  shows "s \<in> set stmts \<or> Fields s \<noteq> []"
proof (cases "snd (Parse_line (prev, stmts) line) = stmts")
  case True
  with assms show ?thesis by simp
next
  case False
  from Parse_line_emits [OF False]
  have blank: "TrimSpace line \<noteq> []"
    and eq: "Parse_line (prev, stmts) line =
      ([], stmts @ [if prev = [] then line else prev @ '' '' @ line])"
    by simp_all
  have line: "Fields_from [] line \<noteq> []"
    using TrimSpace_Fields [OF blank] by (simp add: Fields_def)
  have "Fields (if prev = [] then line else prev @ '' '' @ line) \<noteq> []"
    using line Fields_from_after_space [OF line, of "[]" prev] by (simp add: Fields_def)
  moreover from assms have "s \<in> set (stmts @ [if prev = [] then line else prev @ '' '' @ line])"
    by (simp only: eq snd_conv)
  ultimately show ?thesis by auto
qed

lemma Parse_lines_emitted:
  "s \<in> set (snd (Parse_lines (prev, stmts) ls)) \<Longrightarrow> s \<in> set stmts \<or> Fields s \<noteq> []"
proof (induction ls arbitrary: prev stmts)
  case Nil
  then show ?case by simp
next
  case (Cons l ls)
  obtain p e where pe: "Parse_line (prev, stmts) l = (p, e)"
    by (cases "Parse_line (prev, stmts) l")
  from Cons.prems have "s \<in> set (snd (Parse_lines (p, e) ls))"
    by (simp only: Parse_lines.simps pe)
  then have "s \<in> set e \<or> Fields s \<noteq> []" by (rule Cons.IH)
  then show ?case
  proof
    assume "s \<in> set e"
    then have "s \<in> set (snd (Parse_line (prev, stmts) l))" by (simp only: pe snd_conv)
    then show ?thesis by (rule Parse_line_emitted)
  next
    assume "Fields s \<noteq> []"
    then show ?thesis by simp
  qed
qed

text \<open>A string that splits into at least one word is not all white space.\<close>

lemma space_runes_nonempty: "p \<in> set space_runes \<Longrightarrow> p \<noteq> []"
  by (auto simp: space_runes_def)

lemma rune_width_found:
  assumes "p \<in> set runes" and "take (length p) s = p" and "\<And>q. q \<in> set runes \<Longrightarrow> q \<noteq> []"
  shows "rune_width runes s \<noteq> 0"
proof -
  from assms(1,2) have "find (\<lambda>p. take (length p) s = p) runes \<noteq> None"
    by (auto simp: find_None_iff)
  then obtain q where q: "find (\<lambda>p. take (length p) s = p) runes = Some q" by auto
  then have "q \<in> set runes" by (auto simp: find_Some_iff)
  with assms(3) have "q \<noteq> []" by simp
  with q show ?thesis by (simp add: rune_width_def)
qed

lemma trim_runes_start: "trim_runes runes s \<noteq> [] \<Longrightarrow> rune_width runes (trim_runes runes s) = 0"
  by (induction runes s rule: trim_runes.induct) (auto split: if_splits)

lemma trim_runes_all:
  "trim_runes runes u = [] \<Longrightarrow> \<exists>ps. set ps \<subseteq> set runes \<and> u = concat ps"
proof (induction runes u rule: trim_runes.induct)
  case (1 runes)
  have "set [] \<subseteq> set runes \<and> [] = concat ([] :: string list)" by simp
  then show ?case by blast
next
  case (2 runes c cs)
  show ?case
  proof (cases "rune_width runes (c # cs) = 0")
    case True
    with 2(2) show ?thesis by simp
  next
    case False
    then obtain p where p: "p \<in> set runes" "take (length p) (c # cs) = p"
        "rune_width runes (c # cs) = length p"
      using rune_width_cases [of runes "c # cs"] by auto
    from False 2(2) have "trim_runes runes (drop (rune_width runes (c # cs)) (c # cs)) = []"
      by simp
    with 2(1) [OF False] obtain ps where ps: "set ps \<subseteq> set runes"
        "drop (rune_width runes (c # cs)) (c # cs) = concat ps"
      by blast
    have "c # cs = take (length p) (c # cs) @ drop (length p) (c # cs)"
      by (simp only: append_take_drop_id)
    then have "c # cs = concat (p # ps)" using p(2,3) ps(2) by simp
    moreover have "set (p # ps) \<subseteq> set runes" using p(1) ps(1) by simp
    ultimately show ?thesis by blast
  qed
qed

lemma concat_runes_width:
  assumes "set ps \<subseteq> set runes" and "concat ps \<noteq> []" and "\<And>q. q \<in> set runes \<Longrightarrow> q \<noteq> []"
  shows "rune_width runes (concat ps) \<noteq> 0"
proof (cases ps)
  case Nil
  with assms(2) show ?thesis by simp
next
  case (Cons p rest)
  then have "p \<in> set runes" "take (length p) (concat ps) = p" using assms(1) by auto
  then show ?thesis using assms(3) by (rule rune_width_found)
qed

lemma Fields_trim: "Fields_from [] s \<noteq> [] \<Longrightarrow> trim_runes space_runes s \<noteq> []"
proof (induction "space_runes" s rule: trim_runes.induct)
  case 1
  then show ?case by simp
next
  case (2 c cs)
  show ?case
  proof (cases "space_width (c # cs) = 0")
    case True
    then show ?thesis by (simp add: space_width_def)
  next
    case False
    then show ?thesis using 2 by (simp add: space_width_def)
  qed
qed

lemma Fields_TrimSpace:
  assumes "Fields s \<noteq> []"
  shows "TrimSpace s \<noteq> []"
proof
  assume e: "TrimSpace s = []"
  define t where "t = trim_runes space_runes s"
  have t: "t \<noteq> []" using assms Fields_trim [of s] by (simp add: t_def Fields_def)
  then have w: "space_width t = 0"
    using trim_runes_start [of space_runes s] by (simp add: t_def space_width_def)
  from e have "trim_runes (map rev space_runes) (rev t) = []"
    by (simp add: TrimSpace_def t_def)
  then obtain ps where ps: "set ps \<subseteq> set (map rev space_runes)" "rev t = concat ps"
    using trim_runes_all by blast
  have "t = rev (concat ps)" using ps(2) by (metis rev_rev_ident)
  then have c: "t = concat (map rev (rev ps))" by (simp add: rev_concat)
  have "set (map rev (rev ps)) \<subseteq> set space_runes" using ps(1) by auto
  then have "rune_width space_runes (concat (map rev (rev ps))) \<noteq> 0"
    using t c space_runes_nonempty by (intro concat_runes_width) auto
  with w c show False by (simp add: space_width_def)
qed

text \<open>
  Claim C10. A statement that \<open>Parse\<close> adds to the statements of its receiver is not
  all white space (\<open>strings.TrimSpace\<close> leaves something of it), and it splits into at
  least one word, the first of which is not empty. So \<open>words[0]\<close> in \<open>Build\<close> is
  within range for every statement the parser emitted, and \<open>Build_statement\<close> takes
  the branch \<open>keyword # args\<close>.
\<close>

theorem parsed_statement_has_keyword:
  assumes "s \<in> set (Statements (snd (Parse spec (Inr text))))"
    and "s \<notin> set (Statements spec)"
  shows "TrimSpace s \<noteq> [] \<and> (\<exists>keyword args. Fields s = keyword # args \<and> keyword \<noteq> [])"
proof -
  from assms have "s \<in> set (snd (Parse_lines ([], []) (ScanLines text)))"
    by (simp add: Parse_Statements)
  then have ne: "Fields s \<noteq> []"
    using Parse_lines_emitted [of s "[]" "[]"] by auto
  then obtain keyword args where ka: "Fields s = keyword # args"
    by (cases "Fields s") auto
  then have "keyword \<in> set (Fields_from [] s)" by (simp add: Fields_def)
  then have "keyword \<noteq> []" by (rule Fields_from_tokens)
  with ka Fields_TrimSpace [OF ne] show ?thesis by simp
qed

theorem parsed_statement_has_keyword_witness:
  "''RUN a    b'' \<in> set (Statements (snd (Parse (New ''nut'') (Inr example_script)))) \<and>
   ''RUN a    b'' \<notin> set (Statements (New ''nut'')) \<and>
   TrimSpace ''RUN a    b'' \<noteq> [] \<and>
   (\<exists>keyword args. Fields ''RUN a    b'' = keyword # args \<and> keyword \<noteq> [])"
proof -
  have m: "''RUN a    b'' \<in> set (Statements (snd (Parse (New ''nut'') (Inr example_script))))"
    by (simp add: Parse_Statements example_script_statements New_def)
  have n: "''RUN a    b'' \<notin> set (Statements (New ''nut''))"
    by (simp add: New_def)
  show ?thesis using m n parsed_statement_has_keyword [OF m n] by blast
qed

section \<open>Properties of the interpreter\<close>

lemmas build_defs = Build_def Build_statement_def RunCommand_def addFiles_def fetchArtifact_def
  writeManifest_def script_def recording_runtime_def failing_write_runtime_def example_spec_def
  New_def zero_State_def empty_Manifest_def

lemma Build_statements_append:
  "Build_statements rt ident volumes (xs @ ys) st w =
     (case Build_statements rt ident volumes xs st w of
        (Some out, st1, w1) \<Rightarrow> (Some out, st1, w1)
      | (None, st1, w1) \<Rightarrow> Build_statements rt ident volumes ys st1 w1)"
  by (induction xs arbitrary: st w) (simp_all split: prod.splits option.splits)

text \<open>\<open>Build\<close> ends at the first statement that does not let the loop go on.\<close>

lemma Build_stops:
  assumes "Statements spec = pre @ stmt # post"
    and "Build_statements rt (ID spec) volumes pre zero_State w = (None, st, w1)"
    and "Build_statement rt (ID spec) volumes stmt st w1 = (Some out, st2, w2)"
  shows "Build rt spec volumes w = (out, spec\<lparr>State := st2\<rparr>, w2)"
  using assms by (simp add: Build_def Build_statements_append)

subsection \<open>A directive without a container\<close>

text \<open>
  Claim C1 as stated fails: only RUN looks at the container handle before it acts. ENV
  with no container appends its entry and the loop goes on; \<open>Build\<close> returns the error
  at the RUN statement after it, with the entry in the state.
\<close>

theorem ENV_runs_without_container:
  "Container zero_State = None \<and>
   Build_statement recording_runtime ''nut'' [''vol''] ''ENV A=1'' zero_State [] =
     (None,
      zero_State\<lparr>BuilderState.Env := [''A=1''],
                 Manifest := empty_Manifest\<lparr>Manifest.Env := [''A=1'']\<rparr>\<rparr>, []) \<and>
   Build recording_runtime (example_spec [''ENV A=1'', ''RUN x'']) [''vol''] [] =
     (Returned (Some ErrNoContainer),
      (example_spec [''ENV A=1'', ''RUN x''])\<lparr>State :=
         zero_State\<lparr>BuilderState.Env := [''A=1''],
                    Manifest := empty_Manifest\<lparr>Manifest.Env := [''A=1'']\<rparr>\<rparr>\<rparr>, [])"
  by (simp add: build_defs string_defs)

text \<open>
  Claim C1, amended. A RUN statement reached with no container ends \<open>Build\<close> with the
  error "No container has been created yet"; the state and the world are those the
  statements before it left, so no script is written and no command runs.
\<close>

theorem RUN_without_container_fails:
  assumes "Statements spec = pre @ stmt # post"
    and "Build_statements rt (ID spec) volumes pre zero_State w = (None, st, w1)"
    and "Container st = None"
    and "Fields stmt = ''RUN'' # args"
  shows "Build rt spec volumes w = (Returned (Some ErrNoContainer), spec\<lparr>State := st\<rparr>, w1)"
proof -
  have "Build_statement rt (ID spec) volumes stmt st w1 =
      (Some (Returned (Some ErrNoContainer)), st, w1)"
    using assms(3,4) by (simp add: Build_statement_def)
  with assms(1,2) show ?thesis by (rule Build_stops)
qed

theorem RUN_without_container_fails_witness:
  "Statements (example_spec [''ENV A=1'', ''RUN x'']) = [''ENV A=1''] @ ''RUN x'' # [] \<and>
   Container (zero_State\<lparr>BuilderState.Env := [''A=1''],
      Manifest := empty_Manifest\<lparr>Manifest.Env := [''A=1'']\<rparr>\<rparr>) = None \<and>
   Fields ''RUN x'' = ''RUN'' # [''x''] \<and>
   Build recording_runtime (example_spec [''ENV A=1'', ''RUN x'']) [''vol''] [] =
     (Returned (Some ErrNoContainer),
      (example_spec [''ENV A=1'', ''RUN x''])\<lparr>State :=
         zero_State\<lparr>BuilderState.Env := [''A=1''],
                    Manifest := empty_Manifest\<lparr>Manifest.Env := [''A=1'']\<rparr>\<rparr>\<rparr>, [])"
proof -
  let ?spec = "example_spec [''ENV A=1'', ''RUN x'']"
  let ?st = "zero_State\<lparr>BuilderState.Env := [''A=1''],
      Manifest := empty_Manifest\<lparr>Manifest.Env := [''A=1'']\<rparr>\<rparr>"
  have a: "Statements ?spec = [''ENV A=1''] @ ''RUN x'' # []"
    by (simp add: example_spec_def)
  have b: "Build_statements recording_runtime (ID ?spec) [''vol''] [''ENV A=1''] zero_State [] =
      (None, ?st, [])"
    by (simp add: build_defs string_defs)
  have c: "Container ?st = None" by (simp add: zero_State_def)
  have d: "Fields ''RUN x'' = ''RUN'' # [''x'']" by (simp add: string_defs)
  show ?thesis using a c d RUN_without_container_fails [OF a b c d] by blast
qed

subsection \<open>A second base image\<close>




subsection \<open>A second entry point\<close>

text \<open>
  Claim C4 as stated fails: the test is whether the entry point is empty, and a CMD
  without arguments leaves it empty. After it an ENTRYPOINT is accepted and the build
  succeeds.
\<close>

theorem empty_CMD_then_ENTRYPOINT_accepted:
  "fst (Build recording_runtime (example_spec [''FROM a'', ''CMD'', ''ENTRYPOINT /bin/sh''])
      [''vol''] []) = Returned None \<and>
   EntryPoint (Manifest (State (fst (snd (Build recording_runtime
      (example_spec [''FROM a'', ''CMD'', ''ENTRYPOINT /bin/sh'']) [''vol''] []))))) = [''/bin/sh'']"
  by (simp add: build_defs string_defs)

text \<open>
  A statement other than FROM that lets the loop go on does not touch an entry point
  that is set. (FROM replaces the manifest by what \<open>Load\<close> gives back.)
\<close>

lemma env_loop_EntryPoint:
  "EntryPoint (Manifest (snd (env_loop args st))) = EntryPoint (Manifest st)"
  by (induction args st rule: env_loop.induct) (simp_all split: list.splits)

lemma label_loop_EntryPoint:
  "EntryPoint (Manifest (snd (label_loop args st))) = EntryPoint (Manifest st)"
  by (induction args st rule: label_loop.induct) (simp_all split: list.splits)

lemma expose_loop_EntryPoint:
  "EntryPoint (Manifest (expose_loop args st)) = EntryPoint (Manifest st)"
  by (induction args st rule: expose_loop.induct) (simp_all split: prod.splits)

lemma Build_statement_keeps_entry_point:
  assumes "Build_statement rt ident volumes stmt st w = (None, st', w')"
    and "take 1 (Fields stmt) \<noteq> [''FROM'']"
    and "EntryPoint (Manifest st) \<noteq> []"
  shows "EntryPoint (Manifest st') = EntryPoint (Manifest st)"
proof (cases "Fields stmt")
  case Nil
  with assms(1) show ?thesis by (simp add: Build_statement_def)
next
  case (Cons keyword args)
  with assms(2) have nf: "keyword \<noteq> ''FROM''" by simp
  from assms(1) nf assms(3) show ?thesis
    unfolding Build_statement_def Cons list.case
    by (simp add: case_prod_beta env_loop_EntryPoint label_loop_EntryPoint
          expose_loop_EntryPoint
        split: if_splits list.splits option.splits outcome.splits)
      (auto simp: env_loop_EntryPoint label_loop_EntryPoint expose_loop_EntryPoint)
qed


lemma Build_statements_keep_entry_point:
  assumes "Build_statements rt ident volumes mid st w = (None, st', w')"
    and "list_all (\<lambda>m. take 1 (Fields m) \<noteq> [''FROM'']) mid"
    and "EntryPoint (Manifest st) \<noteq> []"
  shows "EntryPoint (Manifest st') = EntryPoint (Manifest st)"
  using assms
proof (induction mid arbitrary: st w)
  case Nil
  then show ?case by simp
next
  case (Cons m mid)
  obtain out st1 w1 where s: "Build_statement rt ident volumes m st w = (out, st1, w1)"
    by (cases "Build_statement rt ident volumes m st w")
  with Cons.prems(1) have out: "out = None"
    and rest: "Build_statements rt ident volumes mid st1 w1 = (None, st', w')"
    by (simp_all split: option.splits)
  from Cons.prems(2) have m: "take 1 (Fields m) \<noteq> [''FROM'']"
    and mid: "list_all (\<lambda>m. take 1 (Fields m) \<noteq> [''FROM'']) mid"
    by simp_all
  have one: "EntryPoint (Manifest st1) = EntryPoint (Manifest st)"
    using s m Cons.prems(3) unfolding out by (rule Build_statement_keeps_entry_point)
  with Cons.prems(3) have "EntryPoint (Manifest st1) \<noteq> []" by simp
  with rest mid have "EntryPoint (Manifest st') = EntryPoint (Manifest st1)"
    by (rule Cons.IH)
  with one show ?case by simp
qed

text \<open>
  Claim C4, amended. A CMD or ENTRYPOINT statement reached while the entry point of the
  manifest is not empty ends \<open>Build\<close> with the error "Entrypoint/CMD is already
  defined", whichever of the two keywords it carries and whatever set the entry point.
  A CMD or ENTRYPOINT statement with at least one argument, reached while the entry
  point is empty, sets it to its arguments. When a later CMD or ENTRYPOINT statement
  follows it with no FROM statement between the two, and the statements between them
  let the loop go on, \<open>Build\<close> ends with that error at the later statement.
\<close>

theorem second_entry_point_fails:
  assumes "Statements spec = pre @ stmt # post"
    and "Build_statements rt (ID spec) volumes pre zero_State w = (None, st, w1)"
    and "EntryPoint (Manifest st) \<noteq> []"
    and "Fields stmt = keyword # args"
    and "keyword = ''CMD'' \<or> keyword = ''ENTRYPOINT''"
    and "Fields stmt0 = keyword0 # a # args0"
    and "keyword0 = ''CMD'' \<or> keyword0 = ''ENTRYPOINT''"
    and "EntryPoint (Manifest st0) = []"
    and "Statements spec2 = pre2 @ stmt0 # mid @ stmt # post2"
    and "Build_statements rt (ID spec2) volumes pre2 zero_State w = (None, st0, w0)"
    and "list_all (\<lambda>m. take 1 (Fields m) \<noteq> [''FROM'']) mid"
    and "Build_statements rt (ID spec2) volumes mid
           (st0\<lparr>Manifest := (Manifest st0)\<lparr>EntryPoint := a # args0\<rparr>\<rparr>) w0 = (None, st2, w2)"
  shows "Build rt spec volumes w = (Returned (Some ErrEntrypointDefined), spec\<lparr>State := st\<rparr>, w1) \<and>
         Build_statement rt ident volumes stmt0 st0 wa =
           (None, st0\<lparr>Manifest := (Manifest st0)\<lparr>EntryPoint := a # args0\<rparr>\<rparr>, wa) \<and>
         Build rt spec2 volumes w =
           (Returned (Some ErrEntrypointDefined), spec2\<lparr>State := st2\<rparr>, w2)"
proof -
  have stops: "Build_statement rt i volumes stmt s v = (Some (Returned (Some ErrEntrypointDefined)), s, v)"
    if "EntryPoint (Manifest s) \<noteq> []" for i s v
  proof -
    from assms(5) show ?thesis
    proof
      assume "keyword = ''CMD''"
      with that assms(4) show ?thesis by (simp add: Build_statement_def)
    next
      assume "keyword = ''ENTRYPOINT''"
      with that assms(4) show ?thesis by (simp add: Build_statement_def)
    qed
  qed
  have sets: "Build_statement rt i volumes stmt0 st0 v =
      (None, st0\<lparr>Manifest := (Manifest st0)\<lparr>EntryPoint := a # args0\<rparr>\<rparr>, v)" for i v
  proof -
    from assms(7) show ?thesis
    proof
      assume "keyword0 = ''CMD''"
      with assms(6,8) show ?thesis by (simp add: Build_statement_def)
    next
      assume "keyword0 = ''ENTRYPOINT''"
      with assms(6,8) show ?thesis by (simp add: Build_statement_def)
    qed
  qed
  have one: "Build rt spec volumes w = (Returned (Some ErrEntrypointDefined), spec\<lparr>State := st\<rparr>, w1)"
    using assms(1,2) stops [OF assms(3)] by (rule Build_stops)
  let ?st1 = "st0\<lparr>Manifest := (Manifest st0)\<lparr>EntryPoint := a # args0\<rparr>\<rparr>"
  have "EntryPoint (Manifest ?st1) \<noteq> []" by simp
  with assms(12,11) have "EntryPoint (Manifest st2) = EntryPoint (Manifest ?st1)"
    by (rule Build_statements_keep_entry_point)
  then have set2: "EntryPoint (Manifest st2) \<noteq> []" by simp
  have split: "Statements spec2 = (pre2 @ stmt0 # mid) @ stmt # post2"
    using assms(9) by simp
  have "Build_statements rt (ID spec2) volumes (pre2 @ [stmt0] @ mid) zero_State w = (None, st2, w2)"
    by (simp add: Build_statements_append assms(10) assms(12) sets)
  then have run: "Build_statements rt (ID spec2) volumes (pre2 @ stmt0 # mid) zero_State w = (None, st2, w2)"
    by simp
  have three: "Build rt spec2 volumes w =
      (Returned (Some ErrEntrypointDefined), spec2\<lparr>State := st2\<rparr>, w2)"
    using split run stops [OF set2] by (rule Build_stops)
  from one sets three show ?thesis by simp
qed

theorem second_entry_point_fails_witness:
  "Statements (example_spec [''ENTRYPOINT /bin/sh'', ''CMD run'']) =
     [''ENTRYPOINT /bin/sh''] @ ''CMD run'' # [] \<and>
   EntryPoint (Manifest (zero_State\<lparr>Manifest := empty_Manifest\<lparr>EntryPoint := [''/bin/sh'']\<rparr>\<rparr>)) \<noteq> [] \<and>
   Fields ''CMD run'' = ''CMD'' # [''run''] \<and>
   Fields ''ENTRYPOINT /bin/sh'' = ''ENTRYPOINT'' # ''/bin/sh'' # [] \<and>
   EntryPoint (Manifest zero_State) = [] \<and>
   Statements (example_spec [''ENTRYPOINT /bin/sh'', ''ENV A=1'', ''USER app'', ''CMD run'']) =
     [] @ ''ENTRYPOINT /bin/sh'' # [''ENV A=1'', ''USER app''] @ ''CMD run'' # [] \<and>
   list_all (\<lambda>m. take 1 (Fields m) \<noteq> [''FROM'']) [''ENV A=1'', ''USER app''] \<and>
   Build recording_runtime (example_spec [''ENTRYPOINT /bin/sh'', ''CMD run'']) [''vol''] [] =
     (Returned (Some ErrEntrypointDefined),
      (example_spec [''ENTRYPOINT /bin/sh'', ''CMD run''])\<lparr>State :=
         zero_State\<lparr>Manifest := empty_Manifest\<lparr>EntryPoint := [''/bin/sh'']\<rparr>\<rparr>\<rparr>, []) \<and>
   Build_statement recording_runtime ''nut'' [''vol''] ''ENTRYPOINT /bin/sh'' zero_State [] =
     (None, zero_State\<lparr>Manifest := (Manifest zero_State)\<lparr>EntryPoint := ''/bin/sh'' # []\<rparr>\<rparr>, []) \<and>
   Build recording_runtime
       (example_spec [''ENTRYPOINT /bin/sh'', ''ENV A=1'', ''USER app'', ''CMD run'']) [''vol''] [] =
     (Returned (Some ErrEntrypointDefined),
      (example_spec [''ENTRYPOINT /bin/sh'', ''ENV A=1'', ''USER app'', ''CMD run''])\<lparr>State :=
         zero_State\<lparr>BuilderState.Env := [''A=1''],
           Manifest := empty_Manifest\<lparr>Manifest.Env := [''A=1''], User := ''app'',
             EntryPoint := [''/bin/sh'']\<rparr>\<rparr>\<rparr>, [])"
proof -
  let ?spec = "example_spec [''ENTRYPOINT /bin/sh'', ''CMD run'']"
  let ?st = "zero_State\<lparr>Manifest := empty_Manifest\<lparr>EntryPoint := [''/bin/sh'']\<rparr>\<rparr>"
  let ?spec2 = "example_spec [''ENTRYPOINT /bin/sh'', ''ENV A=1'', ''USER app'', ''CMD run'']"
  let ?st2 = "zero_State\<lparr>BuilderState.Env := [''A=1''],
      Manifest := empty_Manifest\<lparr>Manifest.Env := [''A=1''], User := ''app'',
        EntryPoint := [''/bin/sh'']\<rparr>\<rparr>"
  have a: "Statements ?spec = [''ENTRYPOINT /bin/sh''] @ ''CMD run'' # []"
    by (simp add: example_spec_def)
  have b: "Build_statements recording_runtime (ID ?spec) [''vol''] [''ENTRYPOINT /bin/sh'']
      zero_State [] = (None, ?st, [])"
    by (simp add: build_defs string_defs)
  have c: "EntryPoint (Manifest ?st) \<noteq> []" by simp
  have d: "Fields ''CMD run'' = ''CMD'' # [''run'']" by (simp add: string_defs)
  have e: "''CMD'' = ''CMD'' \<or> ''CMD'' = ''ENTRYPOINT''" by simp
  have f: "Fields ''ENTRYPOINT /bin/sh'' = ''ENTRYPOINT'' # ''/bin/sh'' # []"
    by (simp add: string_defs)
  have g: "''ENTRYPOINT'' = ''CMD'' \<or> ''ENTRYPOINT'' = ''ENTRYPOINT''" by simp
  have h: "EntryPoint (Manifest zero_State) = []" by (simp add: zero_State_def empty_Manifest_def)
  have i: "Statements ?spec2 =
      [] @ ''ENTRYPOINT /bin/sh'' # [''ENV A=1'', ''USER app''] @ ''CMD run'' # []"
    by (simp add: example_spec_def)
  have j: "Build_statements recording_runtime (ID ?spec2) [''vol''] [] zero_State [] =
      (None, zero_State, [])"
    by simp
  have k: "list_all (\<lambda>m. take 1 (Fields m) \<noteq> [''FROM'']) [''ENV A=1'', ''USER app'']"
    by (simp add: string_defs)
  have l: "Build_statements recording_runtime (ID ?spec2) [''vol''] [''ENV A=1'', ''USER app'']
      (zero_State\<lparr>Manifest := (Manifest zero_State)\<lparr>EntryPoint := ''/bin/sh'' # []\<rparr>\<rparr>) [] =
      (None, ?st2, [])"
    by (simp add: build_defs string_defs)
  show ?thesis
    using a c d f h i k
      second_entry_point_fails [OF a b c d e f g h i j k l, where ident = "''nut''" and wa = "[]"]
    by blast
qed

subsection \<open>ENV\<close>

lemma env_loop_entries:
  "snd (env_loop args st) =
     st\<lparr>BuilderState.Env := BuilderState.Env st @ env_entries args,
        Manifest := (Manifest st)\<lparr>Manifest.Env := Manifest.Env (Manifest st) @ env_entries args\<rparr>\<rparr>"
  by (induction args st rule: env_loop.induct) (simp_all split: list.splits)

text \<open>
  Claim C6. Whatever the arguments of an ENV statement, the loop appends the same
  entries, those of \<open>env_entries\<close>, to the live environment of the state and to the
  environment of the manifest, and changes nothing else. The statement \<open>ENV A=1 B 2\<close>
  appends \<open>A=1\<close> and then \<open>B=2\<close>, and the loop of \<open>Build\<close> goes on.
\<close>

theorem ENV_entries_appended_to_both:
  "snd (env_loop args st) =
     st\<lparr>BuilderState.Env := BuilderState.Env st @ env_entries args,
        Manifest := (Manifest st)\<lparr>Manifest.Env := Manifest.Env (Manifest st) @ env_entries args\<rparr>\<rparr> \<and>
   env_entries [''A=1'', ''B'', ''2''] = [''A=1'', ''B=2''] \<and>
   Build_statement rt ident volumes ''ENV A=1 B 2'' st w =
     (None,
      st\<lparr>BuilderState.Env := BuilderState.Env st @ [''A=1'', ''B=2''],
         Manifest := (Manifest st)\<lparr>Manifest.Env := Manifest.Env (Manifest st) @ [''A=1'', ''B=2'']\<rparr>\<rparr>,
      w)"
proof -
  have f: "Fields ''ENV A=1 B 2'' = [''ENV'', ''A=1'', ''B'', ''2'']"
    by (simp add: string_defs)
  have e: "env_entries [''A=1'', ''B'', ''2''] = [''A=1'', ''B=2'']"
    by (simp add: Contains_def)
  have "Build_statement rt ident volumes ''ENV A=1 B 2'' st w =
      (None,
       st\<lparr>BuilderState.Env := BuilderState.Env st @ [''A=1'', ''B=2''],
          Manifest := (Manifest st)\<lparr>Manifest.Env := Manifest.Env (Manifest st) @ [''A=1'', ''B=2'']\<rparr>\<rparr>,
       w)"
    unfolding Build_statement_def f by (simp add: Contains_def)
  with e show ?thesis by (simp only: env_loop_entries simp_thms)
qed

theorem ENV_entries_appended_to_both_witness:
  "BuilderState.Env (snd (env_loop [''A=1'', ''B'', ''2''] (zero_State\<lparr>BuilderState.Env := [''X=0'']\<rparr>))) =
     [''X=0'', ''A=1'', ''B=2''] \<and>
   Manifest.Env (Manifest (snd (env_loop [''A=1'', ''B'', ''2'']
      (zero_State\<lparr>BuilderState.Env := [''X=0'']\<rparr>)))) = [''A=1'', ''B=2'']"
  using ENV_entries_appended_to_both [of "[''A=1'', ''B'', ''2'']"
      "zero_State\<lparr>BuilderState.Env := [''X=0'']\<rparr>" recording_runtime "''nut''" "[]" "[]"]
  by (simp add: zero_State_def empty_Manifest_def Contains_def)

subsection \<open>LABEL and EXPOSE\<close>

text \<open>
  Claim C2 at the argument \<open>a=b=c\<close>: \<open>strings.Split\<close> cuts at every \<open>=\<close> and the code
  takes the second piece, so the label \<open>a\<close> gets the value \<open>b\<close>, not \<open>b=c\<close>.
\<close>

theorem LABEL_value_ends_at_second_equals:
  "Build_statement rt ident volumes ''LABEL a=b=c'' st w =
     (None, st\<lparr>Manifest := (Manifest st)\<lparr>Labels := map_assign (Labels (Manifest st)) ''a'' ''b''\<rparr>\<rparr>, w)"
proof -
  have f: "Fields ''LABEL a=b=c'' = [''LABEL'', ''a=b=c'']"
    by (simp add: string_defs)
  show ?thesis
    unfolding Build_statement_def f by (simp add: Contains_def Split_def)
qed

text \<open>
  Claim C3 at the statement \<open>EXPOSE 80 not-a-number 443\<close>: the loop goes on, and the
  ports appended are 80, 0 and 443. The value 0 is what \<open>ParseUint\<close> returns beside its
  error for the second argument.
\<close>

theorem EXPOSE_appends_zero_for_unparsable_port:
  "Build_statement rt ident volumes ''EXPOSE 80 not-a-number 443'' st w =
     (None, st\<lparr>Manifest := (Manifest st)\<lparr>ExposedPorts := ExposedPorts (Manifest st) @ [80, 0, 443]\<rparr>\<rparr>, w) \<and>
   ParseUint ''not-a-number'' = (0, Some ErrSyntax)"
proof -
  have f: "Fields ''EXPOSE 80 not-a-number 443'' = [''EXPOSE'', ''80'', ''not-a-number'', ''443'']"
    by (simp add: string_defs)
  have p: "ParseUint ''80'' = (80, None)" "ParseUint ''not-a-number'' = (0, Some ErrSyntax)"
    "ParseUint ''443'' = (443, None)"
    by (simp_all add: ParseUint_def)
  show ?thesis
    unfolding Build_statement_def f by (simp add: p)
qed

subsection \<open>The command execution harness\<close>

lemma foldl_append_concat:
  "foldl (\<lambda>b v. b @ f v) buffer env = buffer @ concat (map f env)"
  by (induction env arbitrary: buffer) simp_all

lemma script_layout:
  "script st command =
     ''#!/bin/bash\<newline>'' @
     concat (map (\<lambda>v. ''export '' @ v @ ''\<newline>'') (BuilderState.Env st)) @
     (if Cwd st = [] then [] else ''cd '' @ Cwd st @ ''\<newline>'') @
     (if User (Manifest st) = [] then [] else ''su - '' @ User (Manifest st) @ ''\<newline>'') @
     Join command '' ''"
  by (simp add: script_def foldl_append_concat Let_def)

text \<open>
  Claim C8 as stated fails in the "only if": \<open>RunCommand\<close> also returns the error of
  writing the script file. On a container whose file system cannot be written it
  returns that error and never calls the driver, which would have reported exit code 0
  and no error.
\<close>

theorem RunCommand_fails_when_script_cannot_be_written:
  "RunCommand failing_write_runtime (zero_State\<lparr>Container := Some 1\<rparr>) [''true''] [] =
     (Returned (Some (ErrExternal ''read-only file system'')), []) \<and>
   RunCommandStatus failing_write_runtime 1 [''/bin/bash'', ''/tmp/dockerfile.sh'']
       \<lparr>options_Cwd = ''/root'', options_Env = MinimalEnv failing_write_runtime,
        options_ClearEnv = True\<rparr> [] =
     ((0, None), [Ran [''/bin/bash'', ''/tmp/dockerfile.sh'']])"
  by (simp add: build_defs)

text \<open>
  Claim C8, amended. With a container whose root file system is configured, the script
  written is the shebang line, one \<open>export\<close> line for each entry of the live
  environment in order, a \<open>cd\<close> line exactly when the working directory is set, a
  \<open>su -\<close> line exactly when the user of the manifest is set, and the command joined by
  spaces as the last line, with no line feed after it. \<open>RunCommand\<close> returns an error
  exactly when writing the script fails, or the driver reports an error, or the exit
  code is not 0; it returns nil exactly when none of the three happens.
\<close>

theorem RunCommand_script_and_error:
  assumes "Container st = Some c"
    and "ConfigItem rt c ''lxc.rootfs'' w = rootfs # others"
    and "WriteFile rt (filepath_Join rt [rootfs, ''/tmp/dockerfile.sh'']) (script st command) 493 w =
           (werr, w1)"
    and "RunCommandStatus rt c [''/bin/bash'', ''/tmp/dockerfile.sh'']
           \<lparr>options_Cwd = ''/root'', options_Env = MinimalEnv rt, options_ClearEnv = True\<rparr> w1 =
         ((exitCode, derr), w2)"
  shows "script st command =
           ''#!/bin/bash\<newline>'' @
           concat (map (\<lambda>v. ''export '' @ v @ ''\<newline>'') (BuilderState.Env st)) @
           (if Cwd st = [] then [] else ''cd '' @ Cwd st @ ''\<newline>'') @
           (if User (Manifest st) = [] then [] else ''su - '' @ User (Manifest st) @ ''\<newline>'') @
           Join command '' '' \<and>
         ((\<exists>err. fst (RunCommand rt st command w) = Returned (Some err)) \<longleftrightarrow>
            (werr \<noteq> None \<or> derr \<noteq> None \<or> exitCode \<noteq> 0)) \<and>
         (fst (RunCommand rt st command w) = Returned None \<longleftrightarrow>
            (werr = None \<and> derr = None \<and> exitCode = 0))"
proof -
  have "fst (RunCommand rt st command w) =
          (case werr of
             Some err \<Rightarrow> Returned (Some err)
           | None \<Rightarrow>
               (case derr of
                  Some err \<Rightarrow> Returned (Some err)
                | None \<Rightarrow>
                    if exitCode \<noteq> 0
                    then Returned (Some (ErrCommandFailed (Join command '' '') exitCode))
                    else Returned None))"
    using assms by (simp add: RunCommand_def split: option.splits)
  then have
    "((\<exists>err. fst (RunCommand rt st command w) = Returned (Some err)) \<longleftrightarrow>
        (werr \<noteq> None \<or> derr \<noteq> None \<or> exitCode \<noteq> 0)) \<and>
     (fst (RunCommand rt st command w) = Returned None \<longleftrightarrow>
        (werr = None \<and> derr = None \<and> exitCode = 0))"
    by (auto split: option.splits)
  with script_layout [of st command] show ?thesis by (simp only: simp_thms)
qed

theorem RunCommand_script_and_error_witness:
  "Container (zero_State\<lparr>Container := Some 1, BuilderState.Env := [''A=1'', ''B=2''], Cwd := ''/srv''\<rparr>) = Some 1 \<and>
   ConfigItem recording_runtime 1 ''lxc.rootfs'' [] = ''/rootfs'' # [] \<and>
   script (zero_State\<lparr>Container := Some 1, BuilderState.Env := [''A=1'', ''B=2''], Cwd := ''/srv''\<rparr>)
       [''ls'', ''-l''] =
     ''#!/bin/bash\<newline>export A=1\<newline>export B=2\<newline>cd /srv\<newline>ls -l'' \<and>
   fst (RunCommand recording_runtime
       (zero_State\<lparr>Container := Some 1, BuilderState.Env := [''A=1'', ''B=2''], Cwd := ''/srv''\<rparr>)
       [''ls'', ''-l''] []) = Returned None"
proof -
  let ?st = "zero_State\<lparr>Container := Some 1, BuilderState.Env := [''A=1'', ''B=2''], Cwd := ''/srv''\<rparr>"
  let ?script = "''#!/bin/bash\<newline>export A=1\<newline>export B=2\<newline>cd /srv\<newline>ls -l''"
  let ?path = "filepath_Join recording_runtime [''/rootfs'', ''/tmp/dockerfile.sh'']"
  have a: "Container ?st = Some 1" by simp
  have b: "ConfigItem recording_runtime 1 ''lxc.rootfs'' [] = ''/rootfs'' # []"
    by (simp add: recording_runtime_def)
  have s: "script ?st [''ls'', ''-l''] = ?script"
    by (simp add: script_def zero_State_def empty_Manifest_def)
  have c: "WriteFile recording_runtime ?path (script ?st [''ls'', ''-l'']) 493 [] =
      (None, [Wrote ?path (script ?st [''ls'', ''-l''])])"
    by (simp add: recording_runtime_def)
  have d: "RunCommandStatus recording_runtime 1 [''/bin/bash'', ''/tmp/dockerfile.sh'']
      \<lparr>options_Cwd = ''/root'', options_Env = MinimalEnv recording_runtime, options_ClearEnv = True\<rparr>
      [Wrote ?path (script ?st [''ls'', ''-l''])] =
      ((0, None), [Wrote ?path (script ?st [''ls'', ''-l'']), Ran [''/bin/bash'', ''/tmp/dockerfile.sh'']])"
    by (simp add: recording_runtime_def)
  have "fst (RunCommand recording_runtime ?st [''ls'', ''-l''] []) = Returned None"
    using RunCommand_script_and_error [OF a b c d] by simp
  with a b s show ?thesis by blast
qed

end
